theory Spec2Isabelle
  imports Main "HOL-Library.Multiset"
begin

section \<open>Data model\<close>

text \<open>
  The AWS SDK shapes the rotation code reads. \<open>CreateDate\<close> is a JavaScript \<open>Date\<close>; the
  comparator only compares two dates with \<open><\<close> and \<open>>\<close>, which compares their millisecond
  values, so a date is modelled by that integer. \<open>Status\<close> is kept as the string the SDK
  returns, since the code switches on it with a default branch.
\<close>

record AccessKeyMetadata =
  UserName :: string
  AccessKeyId :: string
  Status :: string
  CreateDate :: int

text \<open>The answer of \<open>createAccessKey\<close>: the same fields and the secret, returned only here.\<close>

record AccessKey = AccessKeyMetadata +
  SecretAccessKey :: string

record Project =
  project :: string
  accessKeyIDLocation :: string
  secretAccessKeyLocation :: string

text \<open>
  \<open>validateConfiguration\<close> tests both fields of a configuration for falsiness, so a field
  may be \<open>undefined\<close> at run time: \<open>None\<close> is \<open>undefined\<close>.
\<close>

record ServiceConfiguration =
  accessKey :: "string option"
  projects :: "Project list option"

record TravisEnvVar =
  env_id :: "string option"
  env_name :: "string option"
  env_public :: "bool option"
  env_value :: "string option"

text \<open>
  Every \<open>throw\<close> of the sources, and the rejection of a promise by a remote call
  (\<open>Rejected\<close>, with the message of the remote failure). \<open>NotIterable\<close> is the
  \<open>TypeError\<close> of \<open>for (... of undefined)\<close>.
\<close>

datatype error =
    UnexpectedNumberOfKeys nat
  | UnexpectedStatus string
  | NoEnvVarList
  | EnvVarNotFound string
  | ValidationFailed string
  | NotIterable
  | Rejected string

text \<open>The calls that leave the program, in the order they are issued.\<close>

datatype call =
    ListAccessKeys string
  | CreateAccessKey string
  | UpdateAccessKey string string string
  | DeleteAccessKey string string
  | SetTimeout nat
  | OnNewCredentials string string
  | HttpGet "string option" string
  | HttpPatch "string option" string string bool

text \<open>The lines written with \<open>console.log\<close>; a template literal keeps its arguments.\<close>

datatype logline =
    LogKeyCount nat
  | LogKey string string int
  | LogCreated string
  | LogInvalidating string
  | LogDeleting string string
  | LogComplete
  | LogUnhandled error
  | LogPushing
  | LogPushUnhandled
  | LogError error
  | LogTravisProject string
  | LogUpdatingEnvVar string string
  | LogUpdatedKeyId nat
  | LogUpdatedSecret nat

section \<open>Effects\<close>

text \<open>
  The state threaded through an invocation: what IAM holds, what the distribution target
  holds, the calls issued so far and the console. An \<open>async\<close> function is a function
  from the state to its outcome (\<open>Inl\<close>: the promise is rejected) and the new state.
\<close>

record ('i, 't) state =
  iam_store :: 'i
  target :: 't
  calls :: "call list"
  console :: "logline list"

type_synonym ('s, 'a) io = "'s \<Rightarrow> (error + 'a) \<times> 's"

definition io_return :: "'a \<Rightarrow> ('s, 'a) io" where
  "io_return a = (\<lambda>s. (Inr a, s))"

definition io_throw :: "error \<Rightarrow> ('s, 'a) io" where
  "io_throw e = (\<lambda>s. (Inl e, s))"

definition io_bind :: "('s, 'a) io \<Rightarrow> ('a \<Rightarrow> ('s, 'b) io) \<Rightarrow> ('s, 'b) io" where
  "io_bind m f = (\<lambda>s. case m s of (Inl e, s') \<Rightarrow> (Inl e, s') | (Inr a, s') \<Rightarrow> f a s')"

definition try_catch :: "('s, 'a) io \<Rightarrow> (error \<Rightarrow> ('s, 'a) io) \<Rightarrow> ('s, 'a) io" where
  "try_catch m h = (\<lambda>s. case m s of (Inl e, s') \<Rightarrow> h e s' | (Inr a, s') \<Rightarrow> (Inr a, s'))"

fun for_each :: "'a list \<Rightarrow> ('a \<Rightarrow> ('s, unit) io) \<Rightarrow> ('s, unit) io" where
  "for_each [] body = io_return ()"
| "for_each (x # xs) body = io_bind (body x) (\<lambda>_. for_each xs body)"

definition console_log :: "logline \<Rightarrow> (('i, 't) state, unit) io" where
  "console_log l = (\<lambda>s. (Inr (), s\<lparr>console := console s @ [l]\<rparr>))"

text \<open>
  The IAM client of the SDK: what each request answers and does to the store is the
  environment's, so it is a parameter. \<open>iam_request\<close> is \<open>iam.op(params).promise()\<close>:
  it records the call and hands it to the client.
\<close>

record 'i IAM =
  listAccessKeys :: "string \<Rightarrow> 'i \<Rightarrow> (error + AccessKeyMetadata list) \<times> 'i"
  createAccessKey :: "string \<Rightarrow> 'i \<Rightarrow> (error + AccessKey) \<times> 'i"
  updateAccessKey :: "string \<Rightarrow> string \<Rightarrow> string \<Rightarrow> 'i \<Rightarrow> (error + unit) \<times> 'i"
  deleteAccessKey :: "string \<Rightarrow> string \<Rightarrow> 'i \<Rightarrow> (error + unit) \<times> 'i"

definition iam_request :: "call \<Rightarrow> ('i \<Rightarrow> (error + 'a) \<times> 'i) \<Rightarrow> (('i, 't) state, 'a) io" where
  "iam_request c op = (\<lambda>s. case op (iam_store s) of
      (r, w) \<Rightarrow> (r, s\<lparr>iam_store := w, calls := calls s @ [c]\<rparr>))"

section \<open>iam-key-rotator.ts\<close>

definition listIAMAccessKeys :: "'i IAM \<Rightarrow> string \<Rightarrow> (('i, 't) state, AccessKeyMetadata list) io" where
  "listIAMAccessKeys iam iamUserName =
     iam_request (ListAccessKeys iamUserName) (listAccessKeys iam iamUserName)"

definition createIAMAccessKey :: "'i IAM \<Rightarrow> string \<Rightarrow> (('i, 't) state, AccessKey) io" where
  "createIAMAccessKey iam iamUserName =
     iam_request (CreateAccessKey iamUserName) (createAccessKey iam iamUserName)"

definition updateIAMAccessKey ::
  "'i IAM \<Rightarrow> string \<Rightarrow> string \<Rightarrow> string \<Rightarrow> (('i, 't) state, unit) io" where
  "updateIAMAccessKey iam iamUserName accessKeyId status =
     iam_request (UpdateAccessKey iamUserName accessKeyId status)
       (updateAccessKey iam iamUserName accessKeyId status)"

definition deleteIAMAccessKey :: "'i IAM \<Rightarrow> string \<Rightarrow> string \<Rightarrow> (('i, 't) state, unit) io" where
  "deleteIAMAccessKey iam iamUserName accessKeyId =
     iam_request (DeleteAccessKey iamUserName accessKeyId)
       (deleteAccessKey iam iamUserName accessKeyId)"

text \<open>\<open>setTimeout(resolve, n * 1000)\<close>: the promise always resolves.\<close>

definition sleepSeconds :: "nat \<Rightarrow> (('i, 't) state, unit) io" where
  "sleepSeconds n = (\<lambda>s. (Inr (), s\<lparr>calls := calls s @ [SetTimeout (n * 1000)]\<rparr>))"

text \<open>The comparator handed to \<open>sort\<close>: negative puts \<open>a\<close> first.\<close>

definition compareCreateDate :: "('z AccessKeyMetadata_scheme) \<Rightarrow> ('z AccessKeyMetadata_scheme) \<Rightarrow> int" where
  "compareCreateDate a b =
     (if CreateDate a > CreateDate b then - 1
      else if CreateDate a < CreateDate b then 1
      else 0)"

text \<open>
  \<open>Array.prototype.sort(comparefn)\<close>, which ECMAScript specifies as a stable sort: an
  element moves behind another only when the comparator puts it strictly after. Written as
  the insertion sort that does exactly that.
\<close>

fun insert_by :: "('a \<Rightarrow> 'a \<Rightarrow> int) \<Rightarrow> 'a \<Rightarrow> 'a list \<Rightarrow> 'a list" where
  "insert_by cmp x [] = [x]"
| "insert_by cmp x (y # ys) =
     (if cmp x y \<le> 0 then x # y # ys else y # insert_by cmp x ys)"

definition array_sort :: "('a \<Rightarrow> 'a \<Rightarrow> int) \<Rightarrow> 'a list \<Rightarrow> 'a list" where
  "array_sort cmp xs = foldr (insert_by cmp) xs []"

text \<open>\<open>await onNewCredentials(id, secret)\<close>: the call is recorded, then the callback runs.\<close>

definition call_onNewCredentials ::
  "(string \<Rightarrow> string \<Rightarrow> (('i, 't) state, unit) io) \<Rightarrow> string \<Rightarrow> string \<Rightarrow> (('i, 't) state, unit) io" where
  "call_onNewCredentials onNewCredentials key secret =
     (\<lambda>s. onNewCredentials key secret (s\<lparr>calls := calls s @ [OnNewCredentials key secret]\<rparr>))"

text \<open>The body of the \<open>try\<close> block of \<open>rotateIAMUserKeys\<close>.\<close>

definition rotateIAMUserKeys_try ::
  "'i IAM \<Rightarrow> string \<Rightarrow> (string \<Rightarrow> string \<Rightarrow> (('i, 't) state, unit) io) \<Rightarrow> (('i, 't) state, unit) io" where
  "rotateIAMUserKeys_try iam iamUserName onNewCredentials =
     io_bind (listIAMAccessKeys iam iamUserName) (\<lambda>fetched.
     let accessKeys = array_sort compareCreateDate fetched in
     io_bind (console_log (LogKeyCount (length accessKeys))) (\<lambda>_.
     io_bind (for_each accessKeys
        (\<lambda>key. console_log (LogKey (AccessKeyId key) (Status key) (CreateDate key)))) (\<lambda>_.
     io_bind
       (if length accessKeys > 2 then
          io_throw (UnexpectedNumberOfKeys (length accessKeys))
        else if length accessKeys \<le> 1 then
          io_bind (createIAMAccessKey iam iamUserName) (\<lambda>newKey.
          io_bind (console_log (LogCreated (AccessKeyId newKey))) (\<lambda>_.
          io_bind (sleepSeconds 1) (\<lambda>_.
          call_onNewCredentials onNewCredentials (AccessKeyId newKey) (SecretAccessKey newKey))))
        else
          (let olderKey = accessKeys ! 1 in
           if Status olderKey = ''Active'' then
             io_bind (console_log (LogInvalidating (AccessKeyId olderKey))) (\<lambda>_.
             updateIAMAccessKey iam iamUserName (AccessKeyId olderKey) ''Inactive'')
           else if Status olderKey = ''Inactive'' then
             io_bind (console_log (LogDeleting (AccessKeyId olderKey) (Status olderKey))) (\<lambda>_.
             deleteIAMAccessKey iam iamUserName (AccessKeyId olderKey))
           else
             io_throw (UnexpectedStatus (Status olderKey))))
       (\<lambda>_. console_log LogComplete))))"

text \<open>The whole function: whatever the \<open>try\<close> block throws is caught and logged.\<close>

definition rotateIAMUserKeys ::
  "'i IAM \<Rightarrow> string \<Rightarrow> (string \<Rightarrow> string \<Rightarrow> (('i, 't) state, unit) io) \<Rightarrow> (('i, 't) state, unit) io" where
  "rotateIAMUserKeys iam iamUserName onNewCredentials =
     try_catch (rotateIAMUserKeys_try iam iamUserName onNewCredentials)
       (\<lambda>err. console_log (LogUnhandled err))"

section \<open>credential-pusher.ts\<close>

text \<open>
  \<open>Service\<close> is the interface a distribution target implements; \<open>CredentialPusher\<close>
  holds a service and its configuration.
\<close>

record ('i, 't) Service =
  validateConfiguration :: "ServiceConfiguration \<Rightarrow> string option"
  pushNewCredentials :: "ServiceConfiguration \<Rightarrow> string \<Rightarrow> string \<Rightarrow> (('i, 't) state, unit) io"

record ('i, 't) CredentialPusher =
  service :: "('i, 't) Service"
  config :: ServiceConfiguration

text \<open>
  The constructor. \<open>if (validationErr)\<close> tests the returned string for truthiness, so an
  empty string counts as no error.
\<close>

definition new_CredentialPusher ::
  "('i, 't) Service \<Rightarrow> ServiceConfiguration \<Rightarrow> error + ('i, 't) CredentialPusher" where
  "new_CredentialPusher svc cfg =
     (case validateConfiguration svc cfg of
        None \<Rightarrow> Inr \<lparr>service = svc, config = cfg\<rparr>
      | Some validationErr \<Rightarrow>
          if validationErr \<noteq> [] then Inl (ValidationFailed validationErr)
          else Inr \<lparr>service = svc, config = cfg\<rparr>)"

definition push :: "('i, 't) CredentialPusher \<Rightarrow> string \<Rightarrow> string \<Rightarrow> (('i, 't) state, unit) io" where
  "push this newAccessKeyId newSecretAccessKey =
     pushNewCredentials (service this) (config this) newAccessKeyId newSecretAccessKey"

section \<open>credential-pusher-travis.ts\<close>

text \<open>
  The HTTP client: what the CI provider answers is the environment's. A \<open>get\<close> answers
  \<open>None\<close> when the response lacks \<open>data.env_vars\<close>; a \<open>patch\<close> answers its status
  code. The client is created from the token, which every request carries in a header.
\<close>

record 't axios =
  http_get :: "string option \<Rightarrow> string \<Rightarrow> 't \<Rightarrow> (error + TravisEnvVar list option) \<times> 't"
  http_patch :: "string option \<Rightarrow> string \<Rightarrow> string \<Rightarrow> bool \<Rightarrow> 't \<Rightarrow> (error + nat) \<times> 't"

definition target_request :: "call \<Rightarrow> ('t \<Rightarrow> (error + 'a) \<times> 't) \<Rightarrow> (('i, 't) state, 'a) io" where
  "target_request c op = (\<lambda>s. case op (target s) of
      (r, w) \<Rightarrow> (r, s\<lparr>target := w, calls := calls s @ [c]\<rparr>))"

definition travis_get ::
  "'t axios \<Rightarrow> string option \<Rightarrow> string \<Rightarrow> (('i, 't) state, TravisEnvVar list option) io" where
  "travis_get ax token url = target_request (HttpGet token url) (http_get ax token url)"

definition travis_patch ::
  "'t axios \<Rightarrow> string option \<Rightarrow> string \<Rightarrow> string \<Rightarrow> bool \<Rightarrow> (('i, 't) state, nat) io" where
  "travis_patch ax token url val pub =
     target_request (HttpPatch token url val pub) (http_patch ax token url val pub)"

text \<open>
  \<open>encodeURIComponent\<close>, on the UTF-8 bytes of the string: every byte but the unreserved
  characters becomes \<open>%XX\<close>.
\<close>

definition uri_unreserved :: "char \<Rightarrow> bool" where
  "uri_unreserved c \<longleftrightarrow>
     c \<in> set (''ABCDEFGHIJKLMNOPQRSTUVWXYZabcdefghijklmnopqrstuvwxyz0123456789-_.!~*()'' @ [CHR 0x27])"

definition hex_digit :: "nat \<Rightarrow> char" where
  "hex_digit n = ''0123456789ABCDEF'' ! (n mod 16)"

definition encodeURIComponent :: "string \<Rightarrow> string" where
  "encodeURIComponent str =
     concat (map (\<lambda>c. if uri_unreserved c then [c]
                       else [CHR ''%'', hex_digit (of_char c div 16), hex_digit (of_char c)]) str)"

definition validateConfiguration_travis :: "ServiceConfiguration \<Rightarrow> string option" where
  "validateConfiguration_travis cfg =
     (if accessKey cfg = None \<or> accessKey cfg = Some [] then
        Some ''No Travis CI access key provided.''
      else if projects cfg = None \<or> projects cfg = Some [] then
        Some ''No projects to push credentials to.''
      else None)"

text \<open>
  The inner loop over the listed variables, with its two accumulators: a variable without
  an id is skipped, a later match overwrites an earlier one, and the secret's name is
  only tried when the key id's name did not match.
\<close>

fun findEnvVarIds :: "Project \<Rightarrow> TravisEnvVar list \<Rightarrow> string \<times> string \<Rightarrow> string \<times> string" where
  "findEnvVarIds p [] acc = acc"
| "findEnvVarIds p (envVar # rest) (accessKeyEnvVarId, secretAccessKeyEnvVarId) =
     (case env_id envVar of
        None \<Rightarrow> findEnvVarIds p rest (accessKeyEnvVarId, secretAccessKeyEnvVarId)
      | Some i \<Rightarrow>
          if i = [] then findEnvVarIds p rest (accessKeyEnvVarId, secretAccessKeyEnvVarId)
          else if env_name envVar = Some (accessKeyIDLocation p) then
            findEnvVarIds p rest (i, secretAccessKeyEnvVarId)
          else if env_name envVar = Some (secretAccessKeyLocation p) then
            findEnvVarIds p rest (accessKeyEnvVarId, i)
          else findEnvVarIds p rest (accessKeyEnvVarId, secretAccessKeyEnvVarId))"

text \<open>The body of the loop over the projects.\<close>

definition pushProject ::
  "'t axios \<Rightarrow> string option \<Rightarrow> string \<Rightarrow> string \<Rightarrow> Project \<Rightarrow> (('i, 't) state, unit) io" where
  "pushProject ax token newAccessKeyId newSecretAccessKey p =
     io_bind (console_log (LogTravisProject (project p))) (\<lambda>_.
     let repoSlug = encodeURIComponent (project p) in
     io_bind (travis_get ax token (''/repo/'' @ repoSlug @ ''/env_vars'')) (\<lambda>listEnvVarsResp.
     case listEnvVarsResp of
       None \<Rightarrow> io_throw NoEnvVarList
     | Some envVars \<Rightarrow>
        (case findEnvVarIds p envVars ([], []) of
           (accessKeyEnvVarId, secretAccessKeyEnvVarId) \<Rightarrow>
             if accessKeyEnvVarId = [] then
               io_throw (EnvVarNotFound (accessKeyIDLocation p))
             else if secretAccessKeyEnvVarId = [] then
               io_throw (EnvVarNotFound (secretAccessKeyLocation p))
             else
               io_bind (console_log (LogUpdatingEnvVar (accessKeyIDLocation p) accessKeyEnvVarId)) (\<lambda>_.
               io_bind (travis_patch ax token
                          (''/repo/'' @ repoSlug @ ''/env_var/'' @ accessKeyEnvVarId)
                          newAccessKeyId True) (\<lambda>status1.
               io_bind (console_log (LogUpdatedKeyId status1)) (\<lambda>_.
               io_bind (console_log
                          (LogUpdatingEnvVar (secretAccessKeyLocation p) secretAccessKeyEnvVarId)) (\<lambda>_.
               io_bind (travis_patch ax token
                          (''/repo/'' @ repoSlug @ ''/env_var/'' @ secretAccessKeyEnvVarId)
                          newSecretAccessKey False) (\<lambda>status2.
               console_log (LogUpdatedSecret status2)))))))))"

definition pushNewCredentials_travis ::
  "'t axios \<Rightarrow> ServiceConfiguration \<Rightarrow> string \<Rightarrow> string \<Rightarrow> (('i, 't) state, unit) io" where
  "pushNewCredentials_travis ax cfg newAccessKeyId newSecretAccessKey =
     (case projects cfg of
        None \<Rightarrow> io_throw NotIterable
      | Some ps \<Rightarrow>
          for_each ps (pushProject ax (accessKey cfg) newAccessKeyId newSecretAccessKey))"

definition TravisCIPusher :: "'t axios \<Rightarrow> ('i, 't) Service" where
  "TravisCIPusher ax =
     \<lparr>validateConfiguration = validateConfiguration_travis,
      pushNewCredentials = pushNewCredentials_travis ax\<rparr>"

section \<open>The scheduled callback of \<open>AccessKeyRotator\<close>\<close>

text \<open>
  The Lambda's callback: one rotation step, with a distribution callback that catches and
  logs whatever the pusher throws.
\<close>

definition keyRotatorLambda ::
  "'i IAM \<Rightarrow> string \<Rightarrow> ('i, 't) CredentialPusher \<Rightarrow> (('i, 't) state, unit) io" where
  "keyRotatorLambda iam userToRotate credentialPusher =
     rotateIAMUserKeys iam userToRotate (\<lambda>newKey newSecret.
       try_catch
         (io_bind (console_log LogPushing) (\<lambda>_. push credentialPusher newKey newSecret))
         (\<lambda>err. io_bind (console_log LogPushUnhandled) (\<lambda>_. console_log (LogError err))))"

section \<open>index.ts\<close>

text \<open>
  The program: the pusher is constructed first, from the configured token, and the
  rotator, whose scheduled callback is the result here, only with the pusher. The user
  is the one of \<open>user-and-group.ts\<close>.
\<close>

definition index_ts :: "'i IAM \<Rightarrow> 't axios \<Rightarrow> string \<Rightarrow> error + (('i, 't) state, unit) io" where
  "index_ts iam ax travis_ci_token =
     (case new_CredentialPusher (TravisCIPusher ax)
             \<lparr>accessKey = Some travis_ci_token,
              projects = Some [\<lparr>project = ''chrsmith/pulumi-aws-travis-cicd-demo'',
                                accessKeyIDLocation = ''AWS_ACCESS_KEY_ID'',
                                secretAccessKeyLocation = ''AWS_SECRET_ACCESS_KEY''\<rparr>]\<rparr> of
        Inl e \<Rightarrow> Inl e
      | Inr demoTravisCIPusher \<Rightarrow> Inr (keyRotatorLambda iam ''cicd-bot'' demoTravisCIPusher))"

section \<open>Vocabulary of the statements\<close>

text \<open>The two URLs \<open>pushProject\<close> builds for a project.\<close>

definition env_vars_url :: "Project \<Rightarrow> string" where
  "env_vars_url p = ''/repo/'' @ encodeURIComponent (project p) @ ''/env_vars''"

definition env_var_url :: "Project \<Rightarrow> string \<Rightarrow> string" where
  "env_var_url p i = ''/repo/'' @ encodeURIComponent (project p) @ ''/env_var/'' @ i"


text \<open>The calls of a push to one project that resolves the handles \<open>a\<close> and \<open>b\<close>.\<close>

definition push_calls :: "string option \<Rightarrow> string \<Rightarrow> string \<Rightarrow> Project \<Rightarrow> string \<times> string \<Rightarrow> call list" where
  "push_calls token newAccessKeyId newSecretAccessKey p ab =
     [HttpGet token (env_vars_url p),
      HttpPatch token (env_var_url p (fst ab)) newAccessKeyId True,
      HttpPatch token (env_var_url p (snd ab)) newSecretAccessKey False]"

section \<open>The simulated CI provider\<close>

text \<open>
  A simulated CI provider: it holds the variables of each project under the project's
  escaped name, answers a list request with them, and applies a patch to the variable
  whose id the URL names.
\<close>

definition sim_var_at :: "string \<Rightarrow> string \<Rightarrow> TravisEnvVar \<Rightarrow> bool" where
  "sim_var_at url slug v =
     (case env_id v of None \<Rightarrow> False | Some i \<Rightarrow> url = ''/repo/'' @ slug @ ''/env_var/'' @ i)"

definition sim_get :: "string option \<Rightarrow> string \<Rightarrow> (string \<times> TravisEnvVar list) list
    \<Rightarrow> (error + TravisEnvVar list option) \<times> (string \<times> TravisEnvVar list) list" where
  "sim_get token url t =
     (case filter (\<lambda>(slug, vars). url = ''/repo/'' @ slug @ ''/env_vars'') t of
        [] \<Rightarrow> (Inl (Rejected ''404''), t)
      | (slug, vars) # _ \<Rightarrow> (Inr (Some vars), t))"

definition sim_patch :: "string option \<Rightarrow> string \<Rightarrow> string \<Rightarrow> bool \<Rightarrow> (string \<times> TravisEnvVar list) list
    \<Rightarrow> (error + nat) \<times> (string \<times> TravisEnvVar list) list" where
  "sim_patch token url val pub t =
     (if list_ex (\<lambda>(slug, vars). list_ex (sim_var_at url slug) vars) t then
        (Inr 200, map (\<lambda>(slug, vars).
            (slug, map (\<lambda>v. if sim_var_at url slug v
                              then v\<lparr>env_value := Some val, env_public := Some pub\<rparr> else v) vars)) t)
      else (Inl (Rejected ''404''), t))"

definition sim_axios :: "((string \<times> TravisEnvVar list) list) axios" where
  "sim_axios = \<lparr>http_get = sim_get, http_patch = sim_patch\<rparr>"

section \<open>The simulated store\<close>

text \<open>
  The simulated credential store of the testable properties: it holds the keys of the one
  principal, answers a list request with them and applies every mutation it is asked for.
  The \<open>n\<close>-th key it creates takes its id, secret and creation date from \<open>gen n\<close>, and is
  listed first when \<open>front n\<close> holds and last otherwise, so that any list order and any
  dates can be simulated.
\<close>

record sim_store =
  sim_keys :: "AccessKeyMetadata list"
  sim_created :: nat

definition sim_create :: "(nat \<Rightarrow> AccessKey) \<Rightarrow> (nat \<Rightarrow> bool) \<Rightarrow> string \<Rightarrow> sim_store \<Rightarrow> (error + AccessKey) \<times> sim_store" where
  "sim_create gen front u w =
     (let n = sim_created w;
          m = \<lparr>UserName = u, AccessKeyId = AccessKeyId (gen n), Status = ''Active'',
               CreateDate = CreateDate (gen n)\<rparr>
      in (Inr \<lparr>UserName = u, AccessKeyId = AccessKeyId (gen n), Status = ''Active'',
               CreateDate = CreateDate (gen n), SecretAccessKey = SecretAccessKey (gen n)\<rparr>,
          \<lparr>sim_keys = (if front n then m # sim_keys w else sim_keys w @ [m]),
           sim_created = Suc n\<rparr>))"

definition sim_update :: "string \<Rightarrow> string \<Rightarrow> string \<Rightarrow> sim_store \<Rightarrow> (error + unit) \<times> sim_store" where
  "sim_update u i st w =
     (Inr (), w\<lparr>sim_keys := map (\<lambda>k. if AccessKeyId k = i then k\<lparr>Status := st\<rparr> else k) (sim_keys w)\<rparr>)"

definition sim_delete :: "string \<Rightarrow> string \<Rightarrow> sim_store \<Rightarrow> (error + unit) \<times> sim_store" where
  "sim_delete u i w = (Inr (), w\<lparr>sim_keys := filter (\<lambda>k. AccessKeyId k \<noteq> i) (sim_keys w)\<rparr>)"

definition sim_IAM :: "(nat \<Rightarrow> AccessKey) \<Rightarrow> (nat \<Rightarrow> bool) \<Rightarrow> sim_store IAM" where
  "sim_IAM gen front =
     \<lparr>listAccessKeys = (\<lambda>u w. (Inr (sim_keys w), w)),
      createAccessKey = sim_create gen front,
      updateAccessKey = sim_update,
      deleteAccessKey = sim_delete\<rparr>"

text \<open>\<open>n\<close> invocations in a row, each starting where the one before ended.\<close>

fun rotations ::
  "'i IAM \<Rightarrow> string \<Rightarrow> (string \<Rightarrow> string \<Rightarrow> (('i, 't) state, unit) io) \<Rightarrow> nat \<Rightarrow> ('i, 't) state \<Rightarrow> ('i, 't) state" where
  "rotations iam u f 0 s = s"
| "rotations iam u f (Suc n) s = snd (rotateIAMUserKeys iam u f (rotations iam u f n s))"

text \<open>The newest Active key of a key set: Active, and no Active key is newer.\<close>

definition newest_active :: "AccessKeyMetadata list \<Rightarrow> AccessKeyMetadata \<Rightarrow> bool" where
  "newest_active ks k \<longleftrightarrow>
     k \<in> set ks \<and> Status k = ''Active'' \<and>
     (\<forall>k' \<in> set ks. Status k' = ''Active'' \<longrightarrow> CreateDate k' \<le> CreateDate k)"

text \<open>The lines the rotation logs about the sorted snapshot.\<close>

definition key_lines :: "AccessKeyMetadata list \<Rightarrow> logline list" where
  "key_lines accessKeys =
     LogKeyCount (length accessKeys) #
     map (\<lambda>key. LogKey (AccessKeyId key) (Status key) (CreateDate key)) accessKeys"

section \<open>Concrete inputs\<close>

text \<open>
  A simulated principal for running the definitions: the \<open>n\<close>-th key is created \<open>n\<close>
  hours after the epoch, and distribution does nothing.
\<close>

definition demo_gen :: "nat \<Rightarrow> AccessKey" where
  "demo_gen n =
     \<lparr>UserName = ''cicd-bot'', AccessKeyId = ''AKIA'' @ replicate n (CHR ''X''),
      Status = ''Active'', CreateDate = 3600000 * int n,
      SecretAccessKey = ''wJal'' @ replicate n (CHR ''x'')\<rparr>"

definition demo_key :: "string \<Rightarrow> string \<Rightarrow> int \<Rightarrow> AccessKeyMetadata" where
  "demo_key i st d = \<lparr>UserName = ''cicd-bot'', AccessKeyId = i, Status = st, CreateDate = d\<rparr>"

definition demo_state :: "AccessKeyMetadata list \<Rightarrow> 't \<Rightarrow> (sim_store, 't) state" where
  "demo_state ks t =
     \<lparr>iam_store = \<lparr>sim_keys = ks, sim_created = length ks\<rparr>, target = t, calls = [], console = []\<rparr>"

definition demo_IAM :: "sim_store IAM" where
  "demo_IAM = sim_IAM demo_gen (\<lambda>n. False)"

definition no_distribution :: "string \<Rightarrow> string \<Rightarrow> ((sim_store, unit) state, unit) io" where
  "no_distribution newKey newSecret = io_return ()"

definition three_keys :: "AccessKeyMetadata list" where
  "three_keys = [demo_key ''AKIA1'' ''Active'' 1000, demo_key ''AKIA3'' ''Active'' 3000,
                 demo_key ''AKIA2'' ''Inactive'' 2000]"

definition two_active :: "AccessKeyMetadata list" where
  "two_active = [demo_key ''AKIA1'' ''Active'' 1000, demo_key ''AKIA2'' ''Active'' 2000]"

definition older_inactive :: "AccessKeyMetadata list" where
  "older_inactive = [demo_key ''AKIA1'' ''Inactive'' 1000, demo_key ''AKIA2'' ''Active'' 2000]"

definition older_expired :: "AccessKeyMetadata list" where
  "older_expired = [demo_key ''AKIA1'' ''Expired'' 1000, demo_key ''AKIA2'' ''Active'' 2000]"

definition tied_keys :: "AccessKeyMetadata list" where
  "tied_keys = [demo_key ''AKIA1'' ''Active'' 1000, demo_key ''AKIA2'' ''Active'' 2000,
                demo_key ''AKIA3'' ''Inactive'' 1000]"

definition demo_var :: "string \<Rightarrow> string \<Rightarrow> string \<Rightarrow> TravisEnvVar" where
  "demo_var i n v = \<lparr>env_id = Some i, env_name = Some n, env_public = Some False, env_value = Some v\<rparr>"

definition demo_project :: "string \<Rightarrow> Project" where
  "demo_project n = \<lparr>project = n, accessKeyIDLocation = ''AWS_ACCESS_KEY_ID'',
                     secretAccessKeyLocation = ''AWS_SECRET_ACCESS_KEY''\<rparr>"

definition demo_vars :: "TravisEnvVar list" where
  "demo_vars = [demo_var ''v1'' ''AWS_ACCESS_KEY_ID'' ''old-id'',
                demo_var ''v2'' ''AWS_SECRET_ACCESS_KEY'' ''old-secret'']"

definition demo_config :: "Project list \<Rightarrow> ServiceConfiguration" where
  "demo_config ps = \<lparr>accessKey = Some ''tok'', projects = Some ps\<rparr>"

definition failing_service :: "(sim_store, unit) Service" where
  "failing_service =
     \<lparr>validateConfiguration = (\<lambda>cfg. None),
      pushNewCredentials = (\<lambda>cfg newKey newKeySecret. io_throw (Rejected ''timeout''))\<rparr>"

definition failing_pusher :: "(sim_store, unit) CredentialPusher" where
  "failing_pusher = \<lparr>service = failing_service, config = demo_config [demo_project ''acme/app'']\<rparr>"

definition demo_target :: "(string \<times> TravisEnvVar list) list" where
  "demo_target = [(''acme%2Fapp'', demo_vars),
                  (''acme%2Flib'', [demo_var ''v3'' ''AWS_ACCESS_KEY_ID'' ''old-id''])]"

definition app_pushed :: "(sim_store, (string \<times> TravisEnvVar list) list) state" where
  "app_pushed =
      \<lparr>iam_store = \<lparr>sim_keys = [], sim_created = 0\<rparr>,
       target = [(''acme%2Fapp'',
                   [\<lparr>env_id = Some ''v1'', env_name = Some ''AWS_ACCESS_KEY_ID'',
                     env_public = Some True, env_value = Some ''AKIANEW''\<rparr>,
                    \<lparr>env_id = Some ''v2'', env_name = Some ''AWS_SECRET_ACCESS_KEY'',
                     env_public = Some False, env_value = Some ''newsecret''\<rparr>]),
                 (''acme%2Flib'', [demo_var ''v3'' ''AWS_ACCESS_KEY_ID'' ''old-id''])],
       calls = [HttpGet (Some ''tok'') ''/repo/acme%2Fapp/env_vars'',
                HttpPatch (Some ''tok'') ''/repo/acme%2Fapp/env_var/v1'' ''AKIANEW'' True,
                HttpPatch (Some ''tok'') ''/repo/acme%2Fapp/env_var/v2'' ''newsecret'' False],
       console = [LogTravisProject ''acme/app'',
                  LogUpdatingEnvVar ''AWS_ACCESS_KEY_ID'' ''v1'', LogUpdatedKeyId 200,
                  LogUpdatingEnvVar ''AWS_SECRET_ACCESS_KEY'' ''v2'', LogUpdatedSecret 200]\<rparr>"

text \<open>
  What one invocation does to the simulated store, and the invariant the store keeps from
  one invocation to the next: at most two keys, with distinct ids, all of them ids that
  the store has handed out.
\<close>

definition sim_next :: "(nat \<Rightarrow> AccessKey) \<Rightarrow> (nat \<Rightarrow> bool) \<Rightarrow> string \<Rightarrow> sim_store \<Rightarrow> sim_store" where
  "sim_next gen front u w =
     (let ks = array_sort compareCreateDate (sim_keys w) in
      if 2 < length ks then w
      else if length ks \<le> 1 then snd (sim_create gen front u w)
      else if Status (ks ! 1) = ''Active'' then snd (sim_update u (AccessKeyId (ks ! 1)) ''Inactive'' w)
      else if Status (ks ! 1) = ''Inactive'' then snd (sim_delete u (AccessKeyId (ks ! 1)) w)
      else w)"

definition sim_inv :: "(nat \<Rightarrow> AccessKey) \<Rightarrow> sim_store \<Rightarrow> bool" where
  "sim_inv gen w \<longleftrightarrow>
     length (sim_keys w) \<le> 2 \<and> distinct (map AccessKeyId (sim_keys w)) \<and>
     set (map AccessKeyId (sim_keys w)) \<subseteq> (\<lambda>i. AccessKeyId (gen i)) ` {..< sim_created w}"

section \<open>Running the effects\<close>

lemma for_each_log:
  "for_each xs (\<lambda>x. console_log (g x)) s = (Inr (), s\<lparr>console := console s @ map g xs\<rparr>)"
  by (induction xs arbitrary: s) (simp_all add: io_return_def io_bind_def console_log_def)

lemma bind_log [simp]: "io_bind (console_log l) f s = f () (s\<lparr>console := console s @ [l]\<rparr>)"
  by (simp add: io_bind_def console_log_def)

lemma bind_for_each_log [simp]:
  "io_bind (for_each xs (\<lambda>x. console_log (g x))) f s = f () (s\<lparr>console := console s @ map g xs\<rparr>)"
  by (simp add: io_bind_def for_each_log)

lemma bind_throw [simp]: "io_bind (io_throw e) f s = (Inl e, s)"
  by (simp add: io_bind_def io_throw_def)

lemma bind_return [simp]: "io_bind (io_return a) f s = f a s"
  by (simp add: io_bind_def io_return_def)

lemma bind_sleep [simp]:
  "io_bind (sleepSeconds n) f s = f () (s\<lparr>calls := calls s @ [SetTimeout (n * 1000)]\<rparr>)"
  by (simp add: io_bind_def sleepSeconds_def)

lemma bind_iam_request [simp]:
  "io_bind (iam_request c op) f s =
     (case op (iam_store s) of
        (Inl e, w) \<Rightarrow> (Inl e, s\<lparr>iam_store := w, calls := calls s @ [c]\<rparr>)
      | (Inr a, w) \<Rightarrow> f a (s\<lparr>iam_store := w, calls := calls s @ [c]\<rparr>))"
  by (simp add: io_bind_def iam_request_def split: prod.splits sum.splits)

lemma bind_target_request [simp]:
  "io_bind (target_request c op) f s =
     (case op (target s) of
        (Inl e, w) \<Rightarrow> (Inl e, s\<lparr>target := w, calls := calls s @ [c]\<rparr>)
      | (Inr a, w) \<Rightarrow> f a (s\<lparr>target := w, calls := calls s @ [c]\<rparr>))"
  by (simp add: io_bind_def target_request_def split: prod.splits sum.splits)

lemma log_apply [simp]: "console_log l s = (Inr (), s\<lparr>console := console s @ [l]\<rparr>)"
  by (simp add: console_log_def)

lemma throw_apply [simp]: "io_throw e s = (Inl e, s)"
  by (simp add: io_throw_def)

lemma return_apply [simp]: "io_return a s = (Inr a, s)"
  by (simp add: io_return_def)

lemma bind_call_onNewCredentials [simp]:
  "io_bind (call_onNewCredentials f a b) g s =
     io_bind (f a b) g (s\<lparr>calls := calls s @ [OnNewCredentials a b]\<rparr>)"
  by (simp add: io_bind_def call_onNewCredentials_def)

lemma state_upd_order:
  "iam_store_update f1 (target_update f2 s) = target_update f2 (iam_store_update f1 s)"
  "iam_store_update f1 (calls_update f3 s) = calls_update f3 (iam_store_update f1 s)"
  "iam_store_update f1 (console_update f4 s) = console_update f4 (iam_store_update f1 s)"
  "target_update f2 (calls_update f3 s) = calls_update f3 (target_update f2 s)"
  "target_update f2 (console_update f4 s) = console_update f4 (target_update f2 s)"
  "calls_update f3 (console_update f4 s) = console_update f4 (calls_update f3 s)"
  by (cases s; simp)+

lemma bind_if: "io_bind (if c then a else b) f s = (if c then io_bind a f s else io_bind b f s)"
  by simp

lemma bind_assoc: "io_bind (io_bind m f) g = io_bind m (\<lambda>a. io_bind (f a) g)"
  by (auto simp: io_bind_def fun_eq_iff split: prod.splits sum.splits)

lemma length_insert_by [simp]: "length (insert_by cmp x ys) = Suc (length ys)"
  by (induction ys) simp_all

lemma length_array_sort [simp]: "length (array_sort cmp xs) = length xs"
  by (induction xs) (simp_all add: array_sort_def)

lemmas rotate_defs = rotateIAMUserKeys_def rotateIAMUserKeys_try_def listIAMAccessKeys_def
  createIAMAccessKey_def updateIAMAccessKey_def deleteIAMAccessKey_def
  try_catch_def Let_def bind_if bind_assoc key_lines_def state_upd_order

section \<open>The sort\<close>

lemma insert_by_insort:
  "insert_by compareCreateDate x ys = insort_key (\<lambda>k. - CreateDate k) x ys"
  by (induction ys) (auto simp: compareCreateDate_def)

lemma array_sort_sort_key:
  "array_sort compareCreateDate ks = sort_key (\<lambda>k. - CreateDate k) ks"
  by (induction ks) (simp_all add: array_sort_def insert_by_insort)

lemma set_array_sort [simp]: "set (array_sort compareCreateDate ks) = set ks"
  by (simp add: array_sort_sort_key)


section \<open>One rotation step, branch by branch\<close>

lemma try_fatal:
  assumes "listAccessKeys iam u (iam_store s) = (Inr ks, w1)"
    and "2 < length ks \<or>
         (length ks = 2 \<and> Status (array_sort compareCreateDate ks ! 1) \<noteq> ''Active''
            \<and> Status (array_sort compareCreateDate ks ! 1) \<noteq> ''Inactive'')"
  shows "rotateIAMUserKeys_try iam u f s =
           (Inl (if 2 < length ks then UnexpectedNumberOfKeys (length ks)
                 else UnexpectedStatus (Status (array_sort compareCreateDate ks ! 1))),
            s\<lparr>iam_store := w1, calls := calls s @ [ListAccessKeys u],
              console := console s @ key_lines (array_sort compareCreateDate ks)\<rparr>)"
  using assms by (auto simp add: rotate_defs)

lemma rotate_create:
  assumes "listAccessKeys iam u (iam_store s) = (Inr ks, w1)" and "length ks \<le> 1"
    and "createAccessKey iam u w1 = (Inr newKey, w2)"
  shows "rotateIAMUserKeys iam u f s =
           try_catch (io_bind (f (AccessKeyId newKey) (SecretAccessKey newKey)) (\<lambda>_. console_log LogComplete))
             (\<lambda>err. console_log (LogUnhandled err))
             (s\<lparr>iam_store := w2,
                calls := calls s @ [ListAccessKeys u, CreateAccessKey u, SetTimeout 1000,
                   OnNewCredentials (AccessKeyId newKey) (SecretAccessKey newKey)],
                console := console s @ key_lines (array_sort compareCreateDate ks) @
                   [LogCreated (AccessKeyId newKey)]\<rparr>)"
  using assms by (simp add: rotate_defs)

lemma rotate_create_fails:
  assumes "listAccessKeys iam u (iam_store s) = (Inr ks, w1)" and "length ks \<le> 1"
    and "createAccessKey iam u w1 = (Inl e, w2)"
  shows "rotateIAMUserKeys iam u f s =
             (Inr (), s\<lparr>iam_store := w2,
                calls := calls s @ [ListAccessKeys u, CreateAccessKey u],
                console := console s @ key_lines (array_sort compareCreateDate ks) @
                   [LogUnhandled e]\<rparr>)"
  using assms by (simp add: rotate_defs)

lemma rotate_list_fails:
  assumes "listAccessKeys iam u (iam_store s) = (Inl e, w1)"
  shows "rotateIAMUserKeys iam u f s =
             (Inr (), s\<lparr>iam_store := w1,
                calls := calls s @ [ListAccessKeys u],
                console := console s @ [LogUnhandled e]\<rparr>)"
  using assms by (simp add: rotate_defs)

lemma rotate_no_create:
  assumes "listAccessKeys iam u (iam_store s) = (Inr ks, w1)" and "1 < length ks"
  shows "calls (snd (rotateIAMUserKeys iam u f s)) \<in>
           {calls s @ [ListAccessKeys u],
            calls s @ [ListAccessKeys u,
                UpdateAccessKey u (AccessKeyId (array_sort compareCreateDate ks ! 1)) ''Inactive''],
            calls s @ [ListAccessKeys u,
                DeleteAccessKey u (AccessKeyId (array_sort compareCreateDate ks ! 1))]}
        \<and> rotateIAMUserKeys iam u f s = rotateIAMUserKeys iam u g s"
  using assms by (auto simp add: rotate_defs split: prod.splits sum.splits)

lemma finish_iam_store:
  "iam_store (snd (try_catch (io_bind m (\<lambda>_. console_log l)) (\<lambda>err. console_log (h err)) s))
     = iam_store (snd (m s))"
  by (simp add: try_catch_def io_bind_def split: prod.splits sum.splits)

lemmas demo_defs = demo_IAM_def sim_IAM_def sim_create_def sim_update_def sim_delete_def
  demo_state_def demo_key_def demo_gen_def no_distribution_def three_keys_def two_active_def
  older_inactive_def older_expired_def tied_keys_def array_sort_def compareCreateDate_def

lemma demo_list:
  "listAccessKeys demo_IAM u (iam_store (demo_state ks t)) = (Inr ks, iam_store (demo_state ks t))"
  by (simp add: demo_defs)

text \<open>
  Claim C2: when the list request answers 0 or 1 keys and the create request answers a key,
  the invocation issues, after the list request, exactly one create request, then the
  one-second timer, then the distribution callback with the id and the secret of the key
  just created, and nothing else but what the callback itself does; no update or delete
  request is issued. (When the create request is rejected instead, it stays the only
  request after the list request, and there is no key to distribute.) When the list request answers 2 or more keys, the calls issued
  are the list request alone or followed by one update or one delete: no create request
  and no distribution call, and the outcome does not depend on the callback.
\<close>

theorem rotate_creates_and_distributes:
  assumes "listAccessKeys iam u (iam_store s) = (Inr ks, w1)"
  shows "(length ks \<le> 1 \<longrightarrow>
           (\<forall>newKey w2. createAccessKey iam u w1 = (Inr newKey, w2) \<longrightarrow>
              rotateIAMUserKeys iam u f s =
                try_catch
                  (io_bind (f (AccessKeyId newKey) (SecretAccessKey newKey))
                     (\<lambda>_. console_log LogComplete))
                  (\<lambda>err. console_log (LogUnhandled err))
                  (s\<lparr>iam_store := w2,
                     calls := calls s @ [ListAccessKeys u, CreateAccessKey u, SetTimeout 1000,
                        OnNewCredentials (AccessKeyId newKey) (SecretAccessKey newKey)],
                     console := console s @ key_lines (array_sort compareCreateDate ks) @
                        [LogCreated (AccessKeyId newKey)]\<rparr>))
           \<and> (\<forall>e w2. createAccessKey iam u w1 = (Inl e, w2) \<longrightarrow>
              rotateIAMUserKeys iam u f s =
                (Inr (),
                 s\<lparr>iam_store := w2,
                   calls := calls s @ [ListAccessKeys u, CreateAccessKey u],
                   console := console s @ key_lines (array_sort compareCreateDate ks) @
                      [LogUnhandled e]\<rparr>)))
       \<and> (1 < length ks \<longrightarrow>
           calls (snd (rotateIAMUserKeys iam u f s)) \<in>
             {calls s @ [ListAccessKeys u],
              calls s @ [ListAccessKeys u,
                UpdateAccessKey u (AccessKeyId (array_sort compareCreateDate ks ! 1)) ''Inactive''],
              calls s @ [ListAccessKeys u,
                DeleteAccessKey u (AccessKeyId (array_sort compareCreateDate ks ! 1))]}
           \<and> rotateIAMUserKeys iam u f s = rotateIAMUserKeys iam u g s)"
  using rotate_create[OF assms] rotate_create_fails[OF assms] rotate_no_create[OF assms] by blast

theorem rotate_creates_and_distributes_witness:
  "rotateIAMUserKeys demo_IAM ''cicd-bot'' no_distribution (demo_state [] ()) =
     (Inr (),
      \<lparr>iam_store = \<lparr>sim_keys = [demo_key ''AKIA'' ''Active'' 0], sim_created = 1\<rparr>,
       target = (),
       calls = [ListAccessKeys ''cicd-bot'', CreateAccessKey ''cicd-bot'', SetTimeout 1000,
                OnNewCredentials ''AKIA'' ''wJal''],
       console = [LogKeyCount 0, LogCreated ''AKIA'', LogComplete]\<rparr>)
   \<and> calls (snd (rotateIAMUserKeys demo_IAM ''cicd-bot'' no_distribution (demo_state two_active ())))
       = [ListAccessKeys ''cicd-bot'', UpdateAccessKey ''cicd-bot'' ''AKIA1'' ''Inactive'']"
proof -
  have c: "createAccessKey demo_IAM ''cicd-bot'' (iam_store (demo_state [] ())) =
             (Inr (demo_gen 0), \<lparr>sim_keys = [demo_key ''AKIA'' ''Active'' 0], sim_created = 1\<rparr>)"
    by (simp add: demo_defs)
  have "rotateIAMUserKeys demo_IAM ''cicd-bot'' no_distribution (demo_state [] ()) =
     (Inr (),
      \<lparr>iam_store = \<lparr>sim_keys = [demo_key ''AKIA'' ''Active'' 0], sim_created = 1\<rparr>,
       target = (),
       calls = [ListAccessKeys ''cicd-bot'', CreateAccessKey ''cicd-bot'', SetTimeout 1000,
                OnNewCredentials ''AKIA'' ''wJal''],
       console = [LogKeyCount 0, LogCreated ''AKIA'', LogComplete]\<rparr>)"
    using rotate_creates_and_distributes[OF demo_list[of "''cicd-bot''" "[]" "()"], where f = no_distribution] c
    by (simp add: try_catch_def key_lines_def) (simp add: demo_defs)
  moreover have "calls (snd (rotateIAMUserKeys demo_IAM ''cicd-bot'' no_distribution (demo_state two_active ())))
       = [ListAccessKeys ''cicd-bot'', UpdateAccessKey ''cicd-bot'' ''AKIA1'' ''Inactive'']"
    using rotate_creates_and_distributes[OF demo_list[of "''cicd-bot''" two_active "()"], where f = no_distribution]
    by (simp add: rotate_defs demo_defs)
  ultimately show ?thesis by simp
qed



text \<open>
  Claim C4: when the list request answers more than 2 keys, or exactly 2 keys of which the
  older has a status that is neither Active nor Inactive, the body of the rotation throws
  the invariant-violation error (the number of keys, or the unexpected status), and the
  list request is the only call the invocation issues: no create, update or delete
  request reaches the store, which stays as the list request left it, and no
  distribution call is made.
\<close>

theorem rotate_fatal_no_mutation:
  assumes "listAccessKeys iam u (iam_store s) = (Inr ks, w1)"
    and "2 < length ks \<or>
         (length ks = 2 \<and> Status (array_sort compareCreateDate ks ! 1) \<noteq> ''Active''
            \<and> Status (array_sort compareCreateDate ks ! 1) \<noteq> ''Inactive'')"
  shows "rotateIAMUserKeys_try iam u f s =
           (Inl (if 2 < length ks then UnexpectedNumberOfKeys (length ks)
                 else UnexpectedStatus (Status (array_sort compareCreateDate ks ! 1))),
            s\<lparr>iam_store := w1, calls := calls s @ [ListAccessKeys u],
              console := console s @ key_lines (array_sort compareCreateDate ks)\<rparr>)
       \<and> calls (snd (rotateIAMUserKeys iam u f s)) = calls s @ [ListAccessKeys u]
       \<and> iam_store (snd (rotateIAMUserKeys iam u f s)) = w1
       \<and> target (snd (rotateIAMUserKeys iam u f s)) = target s"
  using try_fatal[OF assms, of f]
  by (simp add: rotateIAMUserKeys_def try_catch_def)

theorem rotate_fatal_no_mutation_witness:
  "fst (rotateIAMUserKeys_try demo_IAM ''cicd-bot'' no_distribution (demo_state three_keys ()))
     = Inl (UnexpectedNumberOfKeys 3)
   \<and> calls (snd (rotateIAMUserKeys demo_IAM ''cicd-bot'' no_distribution (demo_state three_keys ())))
     = [ListAccessKeys ''cicd-bot'']
   \<and> sim_keys (iam_store (snd (rotateIAMUserKeys demo_IAM ''cicd-bot'' no_distribution
        (demo_state three_keys ())))) = three_keys
   \<and> fst (rotateIAMUserKeys_try demo_IAM ''cicd-bot'' no_distribution (demo_state older_expired ()))
     = Inl (UnexpectedStatus ''Expired'')
   \<and> calls (snd (rotateIAMUserKeys demo_IAM ''cicd-bot'' no_distribution (demo_state older_expired ())))
     = [ListAccessKeys ''cicd-bot'']"
proof -
  have 3: "2 < length three_keys \<or>
         (length three_keys = 2 \<and> Status (array_sort compareCreateDate three_keys ! 1) \<noteq> ''Active''
            \<and> Status (array_sort compareCreateDate three_keys ! 1) \<noteq> ''Inactive'')"
    by (simp add: three_keys_def)
  have 2: "2 < length older_expired \<or>
         (length older_expired = 2 \<and> Status (array_sort compareCreateDate older_expired ! 1) \<noteq> ''Active''
            \<and> Status (array_sort compareCreateDate older_expired ! 1) \<noteq> ''Inactive'')"
    by (simp add: demo_defs)
  show ?thesis
    using rotate_fatal_no_mutation[OF demo_list[of "''cicd-bot''" _ "()"] 3, where f = no_distribution]
      rotate_fatal_no_mutation[OF demo_list[of "''cicd-bot''" _ "()"] 2, where f = no_distribution]
    by (simp add: demo_defs)
qed

text \<open>
  Claim C5, as the code has it: the invariant-violation error does not reach the caller.
  When the list request answers more than 2 keys, or 2 keys of which the older has an
  unrecognised status, the error thrown in the body is caught by the handler that
  encloses the whole body and written to the console; the invocation then completes
  normally, having issued the list request only.
\<close>

theorem rotate_fatal_caught_and_logged:
  assumes "listAccessKeys iam u (iam_store s) = (Inr ks, w1)"
    and "2 < length ks \<or>
         (length ks = 2 \<and> Status (array_sort compareCreateDate ks ! 1) \<noteq> ''Active''
            \<and> Status (array_sort compareCreateDate ks ! 1) \<noteq> ''Inactive'')"
  shows "rotateIAMUserKeys iam u f s =
           (Inr (),
            s\<lparr>iam_store := w1, calls := calls s @ [ListAccessKeys u],
              console := console s @ key_lines (array_sort compareCreateDate ks) @
                [LogUnhandled (if 2 < length ks then UnexpectedNumberOfKeys (length ks)
                 else UnexpectedStatus (Status (array_sort compareCreateDate ks ! 1)))]\<rparr>)"
  using try_fatal[OF assms, of f]
  by (simp add: rotateIAMUserKeys_def try_catch_def)

theorem rotate_fatal_caught_and_logged_witness:
  "rotateIAMUserKeys demo_IAM ''cicd-bot'' no_distribution (demo_state older_expired ()) =
     (Inr (),
      \<lparr>iam_store = \<lparr>sim_keys = older_expired, sim_created = 2\<rparr>, target = (),
       calls = [ListAccessKeys ''cicd-bot''],
       console = [LogKeyCount 2, LogKey ''AKIA2'' ''Active'' 2000, LogKey ''AKIA1'' ''Expired'' 1000,
                  LogUnhandled (UnexpectedStatus ''Expired'')]\<rparr>)"
proof -
  have 2: "2 < length older_expired \<or>
         (length older_expired = 2 \<and> Status (array_sort compareCreateDate older_expired ! 1) \<noteq> ''Active''
            \<and> Status (array_sort compareCreateDate older_expired ! 1) \<noteq> ''Inactive'')"
    by (simp add: demo_defs)
  show ?thesis
    using rotate_fatal_caught_and_logged[OF demo_list[of "''cicd-bot''" _ "()"] 2, where f = no_distribution]
    by (simp add: demo_defs key_lines_def)
qed

text \<open>
  Claim C5 as stated fails: with three keys in the store the invocation completes
  normally; its outcome is not the invariant-violation error.
\<close>

theorem rotate_fatal_not_surfaced:
  "fst (rotateIAMUserKeys demo_IAM ''cicd-bot'' no_distribution (demo_state three_keys ())) = Inr ()
   \<and> fst (rotateIAMUserKeys demo_IAM ''cicd-bot'' no_distribution (demo_state three_keys ()))
       \<noteq> Inl (UnexpectedNumberOfKeys 3)
   \<and> length (sim_keys (iam_store (demo_state three_keys ()))) = 3"
  by (simp add: rotate_defs demo_defs)



section \<open>Cycles on the simulated store\<close>

lemma sim_rotate_store:
  assumes pres: "\<And>a b s. iam_store (snd (f a b s)) = iam_store s"
  shows "iam_store (snd (rotateIAMUserKeys (sim_IAM gen front) u f s))
           = sim_next gen front u (iam_store s)"
proof -
  let ?ks = "array_sort compareCreateDate (sim_keys (iam_store s))"
  have l: "listAccessKeys (sim_IAM gen front) u (iam_store s)
             = (Inr (sim_keys (iam_store s)), iam_store s)"
    by (simp add: sim_IAM_def)
  consider (many) "2 < length ?ks" | (few) "length ?ks \<le> 1" | (two) "length ?ks = 2"
    by linarith
  then show ?thesis
  proof cases
    case many
    then show ?thesis using l by (simp add: rotate_defs sim_next_def)
  next
    case few
    obtain k w2 where c: "sim_create gen front u (iam_store s) = (Inr k, w2)"
      by (simp add: sim_create_def Let_def)
    then have c': "createAccessKey (sim_IAM gen front) u (iam_store s) = (Inr k, w2)"
      by (simp add: sim_IAM_def)
    have "iam_store (snd (rotateIAMUserKeys (sim_IAM gen front) u f s)) = w2"
      using few by (simp add: rotate_create[OF l _ c'] finish_iam_store pres)
    then show ?thesis using few c by (simp add: sim_next_def)
  next
    case two
    then show ?thesis using l
      by (auto simp add: rotate_defs sim_next_def sim_IAM_def sim_update_def sim_delete_def
            split: prod.splits sum.splits)
  qed
qed

lemma ids_update_comp [simp]:
  "map (AccessKeyId \<circ> (\<lambda>k. if AccessKeyId k = i then k\<lparr>Status := st\<rparr> else k)) xs
     = map AccessKeyId xs"
  by (induction xs) auto

lemma ids_update_image [simp]:
  "(\<lambda>k. AccessKeyId (if AccessKeyId k = i then k\<lparr>Status := st\<rparr> else k)) ` S = AccessKeyId ` S"
  by (auto simp: image_iff)

lemma ids_update:
  "map AccessKeyId (map (\<lambda>k. if AccessKeyId k = i then k\<lparr>Status := st\<rparr> else k) xs)
     = map AccessKeyId xs"
  by (induction xs) auto

lemma ids_delete:
  "map AccessKeyId (filter (\<lambda>k. AccessKeyId k \<noteq> i) xs) = filter (\<lambda>j. j \<noteq> i) (map AccessKeyId xs)"
  by (induction xs) auto

lemma sim_inv_create:
  assumes inj: "inj (\<lambda>n. AccessKeyId (gen n))" and inv: "sim_inv gen w"
    and few: "length (sim_keys w) \<le> 1"
  shows "sim_inv gen (snd (sim_create gen front u w))"
proof -
  have fresh: "AccessKeyId (gen (sim_created w)) \<notin> set (map AccessKeyId (sim_keys w))"
  proof
    assume "AccessKeyId (gen (sim_created w)) \<in> set (map AccessKeyId (sim_keys w))"
    then have "AccessKeyId (gen (sim_created w))
                 \<in> (\<lambda>i. AccessKeyId (gen i)) ` {..< sim_created w}"
      using inv unfolding sim_inv_def by blast
    then obtain i where "i < sim_created w"
        "AccessKeyId (gen (sim_created w)) = AccessKeyId (gen i)"
      by auto
    then show False using inj by (auto dest: injD)
  qed
  have sub: "set (map AccessKeyId (sim_keys w))
               \<subseteq> (\<lambda>i. AccessKeyId (gen i)) ` {..< Suc (sim_created w)}"
    using inv unfolding sim_inv_def by (auto simp: lessThan_Suc)
  show ?thesis
    using inv few fresh sub
    by (auto simp: sim_inv_def sim_create_def Let_def)
qed

lemma sim_inv_update: "sim_inv gen w \<Longrightarrow> sim_inv gen (snd (sim_update u i st w))"
  by (simp add: sim_inv_def sim_update_def ids_update)

lemma sim_inv_delete: "sim_inv gen w \<Longrightarrow> sim_inv gen (snd (sim_delete u i w))"
  unfolding sim_inv_def sim_delete_def
  by (auto simp: ids_delete intro: le_trans[OF length_filter_le])

lemma sim_inv_next:
  assumes inj: "inj (\<lambda>n. AccessKeyId (gen n))" and inv: "sim_inv gen w"
  shows "sim_inv gen (sim_next gen front u w)"
  using inv sim_inv_create[OF inj inv, of front u] sim_inv_update[OF inv] sim_inv_delete[OF inv]
  by (simp add: sim_next_def Let_def)

lemma sim_active_survives:
  assumes inv: "sim_inv gen w" and k: "k \<in> set (sim_keys w)" "Status k = ''Active''"
  shows "AccessKeyId k \<in> AccessKeyId ` set (sim_keys (sim_next gen front u w))"
proof -
  let ?ks = "array_sort compareCreateDate (sim_keys w)"
  have d: "distinct (map AccessKeyId (sim_keys w))" using inv by (simp add: sim_inv_def)
  have del: "AccessKeyId k \<noteq> AccessKeyId (?ks ! 1)"
    if "length ?ks = 2" "Status (?ks ! 1) = ''Inactive''"
  proof -
    have "?ks ! 1 \<in> set ?ks" using that by (intro nth_mem) simp
    then have "?ks ! 1 \<in> set (sim_keys w)" by simp
    moreover have "k \<noteq> ?ks ! 1" using k that by auto
    ultimately show ?thesis using d k(1) by (auto simp: distinct_map inj_on_def)
  qed
  have mem: "AccessKeyId k \<in> set (map AccessKeyId (sim_keys w))" using k by simp
  consider (many) "2 < length ?ks" | (few) "length ?ks \<le> 1" | (two) "length ?ks = 2"
    by linarith
  then show ?thesis
  proof cases
    case many then show ?thesis using k by (simp add: sim_next_def)
  next
    case few then show ?thesis using k by (simp add: sim_next_def sim_create_def Let_def)
  next
    case two
    have "AccessKeyId k \<in> set (map AccessKeyId (sim_keys (sim_next gen front u w)))"
      using two mem del
      by (simp add: sim_next_def Let_def sim_update_def sim_delete_def ids_update ids_delete
            del: set_map)
    then show ?thesis by simp
  qed
qed

lemma sim_rotations_store:
  assumes pres: "\<And>a b s. iam_store (snd (f a b s)) = iam_store s"
  shows "iam_store (rotations (sim_IAM gen front) u f n s0)
           = (sim_next gen front u ^^ n) (iam_store s0)"
  by (induction n) (simp_all add: sim_rotate_store[OF pres])

lemma inj_demo_gen: "inj (\<lambda>n. AccessKeyId (demo_gen n))"
  by (simp add: inj_def demo_gen_def)

lemma no_distribution_store: "iam_store (snd (no_distribution a b s)) = iam_store s"
  by (simp add: no_distribution_def)

text \<open>
  Claim C1: start from a simulated store without keys, whose keys get distinct ids, and
  run any number of invocations one after the other, with a distribution callback that
  leaves the credential store alone (it may succeed or fail). After every invocation the
  store holds at most 2 keys, and the newest Active key of the store is still in the
  store after the next invocation: no invocation deletes it.
\<close>

theorem rotation_cycles_invariant:
  assumes inj: "inj (\<lambda>n. AccessKeyId (gen n))"
    and pres: "\<And>a b s. iam_store (snd (f a b s)) = iam_store s"
    and empty: "sim_keys (iam_store s0) = []"
  shows "length (sim_keys (iam_store (rotations (sim_IAM gen front) u f n s0))) \<le> 2
       \<and> (\<forall>k. newest_active (sim_keys (iam_store (rotations (sim_IAM gen front) u f n s0))) k \<longrightarrow>
              AccessKeyId k \<in> AccessKeyId `
                set (sim_keys (iam_store (rotations (sim_IAM gen front) u f (Suc n) s0))))"
proof -
  have inv: "sim_inv gen (iam_store (rotations (sim_IAM gen front) u f n s0))" for n
  proof (induction n)
    case 0
    show ?case using empty by (simp add: sim_inv_def)
  next
    case (Suc n)
    then show ?case by (simp add: sim_rotate_store[OF pres] sim_inv_next[OF inj])
  qed
  show ?thesis
    using inv[of n] sim_active_survives[OF inv[of n], of _ front u]
    by (auto simp: sim_rotate_store[OF pres] sim_inv_def newest_active_def)
qed

lemma demo_run3:
  "sim_keys (iam_store (rotations demo_IAM ''cicd-bot'' no_distribution (Suc (Suc (Suc 0)))
      (demo_state [] ())))
     = [demo_key ''AKIA'' ''Inactive'' 0, demo_key ''AKIAX'' ''Active'' 3600000]"
  unfolding demo_IAM_def
  apply (simp only: sim_rotations_store[OF no_distribution_store])
  apply (simp add: sim_next_def Let_def demo_defs)
  done

lemma demo_run4:
  "sim_keys (iam_store (rotations demo_IAM ''cicd-bot'' no_distribution (Suc (Suc (Suc (Suc 0))))
      (demo_state [] ())))
     = [demo_key ''AKIAX'' ''Active'' 3600000]"
  unfolding demo_IAM_def
  apply (simp only: sim_rotations_store[OF no_distribution_store])
  apply (simp add: sim_next_def Let_def demo_defs)
  done

theorem rotation_cycles_invariant_witness:
  "length (sim_keys (iam_store (rotations demo_IAM ''cicd-bot'' no_distribution 3
      (demo_state [] ())))) \<le> 2
   \<and> newest_active (sim_keys (iam_store (rotations demo_IAM ''cicd-bot'' no_distribution 3
        (demo_state [] ())))) (demo_key ''AKIAX'' ''Active'' 3600000)
   \<and> AccessKeyId (demo_key ''AKIAX'' ''Active'' 3600000) \<in> AccessKeyId `
       set (sim_keys (iam_store (rotations demo_IAM ''cicd-bot'' no_distribution 4
         (demo_state [] ()))))"
proof -
  have e: "sim_keys (iam_store (demo_state [] ())) = []" by (simp add: demo_state_def)
  have 3: "(3::nat) = Suc (Suc (Suc 0))" and 4: "(4::nat) = Suc (Suc (Suc (Suc 0)))" by simp_all
  show ?thesis
    using rotation_cycles_invariant[OF inj_demo_gen no_distribution_store e,
        where front = "\<lambda>n. False" and u = "''cicd-bot''" and n = 3]
    unfolding 3 4 demo_IAM_def[symmetric] demo_run3 demo_run4
    by (simp add: newest_active_def demo_key_def)
qed

section \<open>The Travis CI pusher\<close>






lemmas push_defs = pushProject_def travis_get_def travis_patch_def Let_def bind_assoc state_upd_order
  env_vars_url_def env_var_url_def

lemma pushProject_not_found:
  assumes "http_get ax token (env_vars_url p) (target s) = (Inr (Some envVars), t1)"
    and "findEnvVarIds p envVars ([], []) = (a, b)" and "a = [] \<or> b = []"
  shows "pushProject ax token k sec p s =
           (Inl (EnvVarNotFound (if a = [] then accessKeyIDLocation p else secretAccessKeyLocation p)),
            s\<lparr>target := t1, calls := calls s @ [HttpGet token (env_vars_url p)],
              console := console s @ [LogTravisProject (project p)]\<rparr>)"
  using assms by (auto simp add: push_defs)

lemma pushProject_ok:
  assumes "http_get ax token (env_vars_url p) (target s) = (Inr (Some envVars), t1)"
    and "findEnvVarIds p envVars ([], []) = (a, b)" and "a \<noteq> []" "b \<noteq> []"
    and "http_patch ax token (env_var_url p a) k True t1 = (Inr st1, t2)"
    and "http_patch ax token (env_var_url p b) sec False t2 = (Inr st2, t3)"
  shows "pushProject ax token k sec p s =
           (Inr (),
            s\<lparr>target := t3, calls := calls s @ push_calls token k sec p (a, b),
              console := console s @ [LogTravisProject (project p),
                 LogUpdatingEnvVar (accessKeyIDLocation p) a, LogUpdatedKeyId st1,
                 LogUpdatingEnvVar (secretAccessKeyLocation p) b, LogUpdatedSecret st2]\<rparr>)"
  using assms by (simp add: push_defs push_calls_def)

lemma pushProject_success_calls:
  assumes "pushProject ax token k sec p s = (Inr (), s')"
  shows "\<exists>a b. a \<noteq> [] \<and> b \<noteq> [] \<and> calls s' = calls s @ push_calls token k sec p (a, b)"
  using assms
  by (auto simp add: push_defs push_calls_def split: prod.splits sum.splits option.splits if_splits)

lemma for_each_append:
  "for_each (xs @ ys) body s = io_bind (for_each xs body) (\<lambda>_. for_each ys body) s"
  by (induction xs arbitrary: s) (auto simp: io_bind_def io_return_def split: prod.splits sum.splits)

lemma for_each_success_calls:
  assumes "for_each ps (pushProject ax token k sec) s = (Inr (), s1)"
  shows "\<exists>ids. length ids = length ps \<and> (\<forall>ab \<in> set ids. fst ab \<noteq> [] \<and> snd ab \<noteq> [])
           \<and> calls s1 = calls s @ concat (map (\<lambda>(q, ab). push_calls token k sec q ab) (zip ps ids))"
  using assms
proof (induction ps arbitrary: s)
  case Nil
  then show ?case by simp
next
  case (Cons p ps)
  from Cons.prems obtain s' where p: "pushProject ax token k sec p s = (Inr (), s')"
    and r: "for_each ps (pushProject ax token k sec) s' = (Inr (), s1)"
    by (auto simp: io_bind_def split: prod.splits sum.splits)
  from pushProject_success_calls[OF p] obtain a b where ab: "a \<noteq> []" "b \<noteq> []"
    "calls s' = calls s @ push_calls token k sec p (a, b)" by blast
  from Cons.IH[OF r] obtain ids where ids: "length ids = length ps"
    "\<forall>ab \<in> set ids. fst ab \<noteq> [] \<and> snd ab \<noteq> []"
    "calls s1 = calls s' @ concat (map (\<lambda>(q, ab). push_calls token k sec q ab) (zip ps ids))"
    by blast
  show ?case
    by (rule exI[of _ "(a, b) # ids"]) (use ab ids in simp)
qed

lemma push_travis_later_project_fails:
  assumes "projects cfg = Some (ps @ p # rest)"
    and "for_each ps (pushProject ax (accessKey cfg) k sec) s = (Inr (), s1)"
    and "http_get ax (accessKey cfg) (env_vars_url p) (target s1) = (Inr (Some envVars), t2)"
    and "findEnvVarIds p envVars ([], []) = (a, b)" and "a = [] \<or> b = []"
  shows "pushNewCredentials_travis ax cfg k sec s =
           (Inl (EnvVarNotFound (if a = [] then accessKeyIDLocation p else secretAccessKeyLocation p)),
            s1\<lparr>target := t2, calls := calls s1 @ [HttpGet (accessKey cfg) (env_vars_url p)],
               console := console s1 @ [LogTravisProject (project p)]\<rparr>)"
  using assms(1,2) pushProject_not_found[OF assms(3,4,5), of k sec]
  by (simp add: pushNewCredentials_travis_def for_each_append io_bind_def)

text \<open>
  Claim C8: the Travis CI \<open>validateConfiguration\<close> returns an error exactly when the
  configuration has no authentication credential (the field is undefined or the empty
  string, the two falsy values of a string field) or no target project (the list is
  undefined or empty). The constructor of \<open>CredentialPusher\<close> calls it and throws
  whenever it returned an error, so every instance that is constructed holds a
  configuration that validated, and with an invalid configuration none exists: the
  program of \<open>index.ts\<close> then stops before the rotation job is built, having touched
  neither store nor target (the constructor is a pure function).
\<close>

theorem validateConfiguration_guards_construction:
  "(validateConfiguration (TravisCIPusher ax) cfg \<noteq> None \<longleftrightarrow>
      accessKey cfg = None \<or> accessKey cfg = Some [] \<or> projects cfg = None \<or> projects cfg = Some [])
   \<and> (validateConfiguration (TravisCIPusher ax) cfg \<noteq> None \<longrightarrow>
        (\<exists>msg. new_CredentialPusher (TravisCIPusher ax) cfg = Inl (ValidationFailed msg)))
   \<and> (\<forall>this. new_CredentialPusher (TravisCIPusher ax) cfg = Inr this \<longrightarrow>
        validateConfiguration (TravisCIPusher ax) cfg = None \<and> config this = cfg
        \<and> service this = TravisCIPusher ax)
   \<and> (\<forall>svc msg. validateConfiguration svc cfg = Some msg \<and> msg \<noteq> [] \<longrightarrow>
        new_CredentialPusher svc cfg = Inl (ValidationFailed msg))
   \<and> (index_ts iam ax [] = Inl (ValidationFailed ''No Travis CI access key provided.''))"
  by (auto simp: TravisCIPusher_def validateConfiguration_travis_def new_CredentialPusher_def index_ts_def
        split: option.splits if_splits)

theorem validateConfiguration_guards_construction_witness:
  "validateConfiguration (TravisCIPusher sim_axios :: (sim_store, (string \<times> TravisEnvVar list) list) Service) \<lparr>accessKey = Some ''tok'', projects = Some []\<rparr>
     = Some ''No projects to push credentials to.''
   \<and> new_CredentialPusher (TravisCIPusher sim_axios :: (sim_store, (string \<times> TravisEnvVar list) list) Service) \<lparr>accessKey = Some ''tok'', projects = Some []\<rparr>
     = Inl (ValidationFailed ''No projects to push credentials to.'')
   \<and> new_CredentialPusher (TravisCIPusher sim_axios :: (sim_store, (string \<times> TravisEnvVar list) list) Service) (demo_config [demo_project ''acme/app''])
     = Inr \<lparr>service = TravisCIPusher sim_axios, config = demo_config [demo_project ''acme/app'']\<rparr>"
  using validateConfiguration_guards_construction[where ax = sim_axios and 'a = sim_store and cfg = "\<lparr>accessKey = Some ''tok'', projects = Some []\<rparr>"]
    validateConfiguration_guards_construction[where ax = sim_axios and 'a = sim_store and cfg = "demo_config [demo_project ''acme/app'']"]
  by (simp add: TravisCIPusher_def validateConfiguration_travis_def new_CredentialPusher_def demo_config_def)

lemma enc_app: "encodeURIComponent ''acme/app'' = ''acme%2Fapp''"
  by (simp add: encodeURIComponent_def uri_unreserved_def hex_digit_def)

lemma enc_lib: "encodeURIComponent ''acme/lib'' = ''acme%2Flib''"
  by (simp add: encodeURIComponent_def uri_unreserved_def hex_digit_def)

lemmas travis_demo_defs = sim_axios_def sim_get_def sim_patch_def sim_var_at_def demo_target_def
  demo_vars_def demo_var_def demo_project_def demo_config_def env_vars_url_def env_var_url_def
  enc_app enc_lib



text \<open>
  Claim C10: when the push has succeeded for the projects \<open>ps\<close> and a name of the next
  project \<open>p\<close> is not resolved, \<open>pushNewCredentials\<close> throws after the list request for
  \<open>p\<close>: no update is issued for \<open>p\<close>, and no call follows. The updates of the earlier
  projects stay: each of them received its list request and both updates with the new
  credentials, and nothing undoes them.
\<close>

theorem push_stops_at_unresolved_project:
  assumes "projects cfg = Some (ps @ p # rest)"
    and "for_each ps (pushProject ax (accessKey cfg) k sec) s = (Inr (), s1)"
    and "http_get ax (accessKey cfg) (env_vars_url p) (target s1) = (Inr (Some envVars), t2)"
    and "findEnvVarIds p envVars ([], []) = (a, b)" and "a = [] \<or> b = []"
  shows "pushNewCredentials_travis ax cfg k sec s =
           (Inl (EnvVarNotFound (if a = [] then accessKeyIDLocation p else secretAccessKeyLocation p)),
            s1\<lparr>target := t2, calls := calls s1 @ [HttpGet (accessKey cfg) (env_vars_url p)],
               console := console s1 @ [LogTravisProject (project p)]\<rparr>)
       \<and> (\<exists>ids. length ids = length ps \<and> (\<forall>ab \<in> set ids. fst ab \<noteq> [] \<and> snd ab \<noteq> [])
             \<and> calls s1 = calls s @
                  concat (map (\<lambda>(q, ab). push_calls (accessKey cfg) k sec q ab) (zip ps ids)))"
  using push_travis_later_project_fails[OF assms] for_each_success_calls[OF assms(2)]
  by simp

lemma demo_push_app:
  "for_each [demo_project ''acme/app'']
      (pushProject sim_axios (Some ''tok'') ''AKIANEW'' ''newsecret'') (demo_state [] demo_target)
     = (Inr (), app_pushed)"
proof -
  have g1: "http_get sim_axios (Some ''tok'') (env_vars_url (demo_project ''acme/app''))
              (target (demo_state [] demo_target)) = (Inr (Some demo_vars), demo_target)"
    by (simp add: travis_demo_defs demo_state_def)
  have f1: "findEnvVarIds (demo_project ''acme/app'') demo_vars ([], []) = (''v1'', ''v2'')"
    by (simp add: travis_demo_defs)
  have p1: "http_patch sim_axios (Some ''tok'') (env_var_url (demo_project ''acme/app'') ''v1'')
              ''AKIANEW'' True demo_target = (Inr 200, 
                 [(''acme%2Fapp'',
                   [\<lparr>env_id = Some ''v1'', env_name = Some ''AWS_ACCESS_KEY_ID'',
                     env_public = Some True, env_value = Some ''AKIANEW''\<rparr>,
                    \<lparr>env_id = Some ''v2'', env_name = Some ''AWS_SECRET_ACCESS_KEY'',
                     env_public = Some False, env_value = Some ''old-secret''\<rparr>]),
                 (''acme%2Flib'', [demo_var ''v3'' ''AWS_ACCESS_KEY_ID'' ''old-id''])])"
    by (simp add: travis_demo_defs)
  have p2: "http_patch sim_axios (Some ''tok'') (env_var_url (demo_project ''acme/app'') ''v2'')
              ''newsecret'' False  [(''acme%2Fapp'',
                   [\<lparr>env_id = Some ''v1'', env_name = Some ''AWS_ACCESS_KEY_ID'',
                     env_public = Some True, env_value = Some ''AKIANEW''\<rparr>,
                    \<lparr>env_id = Some ''v2'', env_name = Some ''AWS_SECRET_ACCESS_KEY'',
                     env_public = Some False, env_value = Some ''old-secret''\<rparr>]),
                 (''acme%2Flib'', [demo_var ''v3'' ''AWS_ACCESS_KEY_ID'' ''old-id''])]
               = (Inr 200, target app_pushed)"
    by (simp add: travis_demo_defs app_pushed_def)
  show ?thesis
    using pushProject_ok[OF g1 f1 _ _ p1 p2]
    by (simp add: io_bind_def push_calls_def app_pushed_def demo_state_def travis_demo_defs)
qed

theorem push_stops_at_unresolved_project_witness:
  "pushNewCredentials_travis sim_axios
      (demo_config [demo_project ''acme/app'', demo_project ''acme/lib'', demo_project ''acme/web''])
      ''AKIANEW'' ''newsecret'' (demo_state [] demo_target) =
     (Inl (EnvVarNotFound ''AWS_SECRET_ACCESS_KEY''),
      app_pushed\<lparr>calls := calls app_pushed @ [HttpGet (Some ''tok'') ''/repo/acme%2Flib/env_vars''],
                 console := console app_pushed @ [LogTravisProject ''acme/lib'']\<rparr>)"
proof -
  have c: "projects (demo_config [demo_project ''acme/app'', demo_project ''acme/lib'', demo_project ''acme/web''])
            = Some ([demo_project ''acme/app''] @ demo_project ''acme/lib'' # [demo_project ''acme/web''])"
    by (simp add: demo_config_def)
  have a: "accessKey (demo_config [demo_project ''acme/app'', demo_project ''acme/lib'', demo_project ''acme/web''])
            = Some ''tok''"
    by (simp add: demo_config_def)
  have g2: "http_get sim_axios (Some ''tok'') (env_vars_url (demo_project ''acme/lib''))
              (target app_pushed)
              = (Inr (Some [demo_var ''v3'' ''AWS_ACCESS_KEY_ID'' ''old-id'']), target app_pushed)"
    by (simp add: travis_demo_defs app_pushed_def)
  have f2: "findEnvVarIds (demo_project ''acme/lib'') [demo_var ''v3'' ''AWS_ACCESS_KEY_ID'' ''old-id''] ([], [])
              = (''v3'', [])"
    by (simp add: travis_demo_defs)
  have e: "''v3'' = [] \<or> ([]::string) = []" by simp
  show ?thesis
    using push_stops_at_unresolved_project[OF c demo_push_app[folded a] g2[folded a] f2 e]
    by (simp add: travis_demo_defs a)
qed

section \<open>Distribution failure\<close>

text \<open>
  Claim C6: in an invocation that found 0 or 1 keys and created a key, a failure of the
  pusher is caught and logged by the distribution callback, and the invocation completes
  normally in the state the failed push left, with only console lines added: no request
  follows the create request, so the created key is not rolled back. An invocation whose
  snapshot holds 2 keys issues the list request and at most one update or delete; it
  makes no distribution call, whatever the pusher.
\<close>

theorem distribution_failure_not_rolled_back:
  assumes list: "listAccessKeys iam u (iam_store s) = (Inr ks, w1)" and few: "length ks \<le> 1"
    and create: "createAccessKey iam u w1 = (Inr newKey, w2)"
    and fail: "push cp (AccessKeyId newKey) (SecretAccessKey newKey)
                 (s\<lparr>iam_store := w2,
                    calls := calls s @ [ListAccessKeys u, CreateAccessKey u, SetTimeout 1000,
                       OnNewCredentials (AccessKeyId newKey) (SecretAccessKey newKey)],
                    console := console s @ key_lines (array_sort compareCreateDate ks) @
                       [LogCreated (AccessKeyId newKey), LogPushing]\<rparr>) = (Inl e, s4)"
  shows "keyRotatorLambda iam u cp s =
           (Inr (), s4\<lparr>console := console s4 @ [LogPushUnhandled, LogError e, LogComplete]\<rparr>)
       \<and> iam_store (snd (keyRotatorLambda iam u cp s)) = iam_store s4
       \<and> calls (snd (keyRotatorLambda iam u cp s)) = calls s4
       \<and> (\<forall>t ks' w'. listAccessKeys iam u (iam_store t) = (Inr ks', w') \<and> length ks' = 2 \<longrightarrow>
            calls (snd (keyRotatorLambda iam u cp t)) \<in>
              {calls t @ [ListAccessKeys u],
               calls t @ [ListAccessKeys u,
                 UpdateAccessKey u (AccessKeyId (array_sort compareCreateDate ks' ! 1)) ''Inactive''],
               calls t @ [ListAccessKeys u,
                 DeleteAccessKey u (AccessKeyId (array_sort compareCreateDate ks' ! 1))]}
            \<and> keyRotatorLambda iam u cp t = keyRotatorLambda iam u cp' t)"
proof -
  have 1: "keyRotatorLambda iam u cp s =
           (Inr (), s4\<lparr>console := console s4 @ [LogPushUnhandled, LogError e, LogComplete]\<rparr>)"
    unfolding keyRotatorLambda_def
    using fail
    by (simp add: rotate_create[OF list few create] try_catch_def io_bind_def state_upd_order)
  have 2: "calls (snd (keyRotatorLambda iam u cp t)) \<in>
              {calls t @ [ListAccessKeys u],
               calls t @ [ListAccessKeys u,
                 UpdateAccessKey u (AccessKeyId (array_sort compareCreateDate ks' ! 1)) ''Inactive''],
               calls t @ [ListAccessKeys u,
                 DeleteAccessKey u (AccessKeyId (array_sort compareCreateDate ks' ! 1))]}
            \<and> keyRotatorLambda iam u cp t = keyRotatorLambda iam u cp' t"
    if "listAccessKeys iam u (iam_store t) = (Inr ks', w')" "length ks' = 2" for t ks' w'
    unfolding keyRotatorLambda_def
    using rotate_no_create[OF that(1)] that(2) by simp
  have 3: "\<forall>t ks' w'. listAccessKeys iam u (iam_store t) = (Inr ks', w') \<and> length ks' = 2 \<longrightarrow>
            calls (snd (keyRotatorLambda iam u cp t)) \<in>
              {calls t @ [ListAccessKeys u],
               calls t @ [ListAccessKeys u,
                 UpdateAccessKey u (AccessKeyId (array_sort compareCreateDate ks' ! 1)) ''Inactive''],
               calls t @ [ListAccessKeys u,
                 DeleteAccessKey u (AccessKeyId (array_sort compareCreateDate ks' ! 1))]}
            \<and> keyRotatorLambda iam u cp t = keyRotatorLambda iam u cp' t"
    using 2 by blast
  show ?thesis
    apply (rule conjI[OF 1])
    apply (rule conjI, simp add: 1)
    apply (rule conjI, simp add: 1)
    apply (rule 3)
    done
qed

theorem distribution_failure_not_rolled_back_witness:
  "keyRotatorLambda demo_IAM ''cicd-bot'' failing_pusher
      (demo_state [demo_key ''AKIA0'' ''Active'' 500] ()) =
     (Inr (),
      \<lparr>iam_store = \<lparr>sim_keys = [demo_key ''AKIA0'' ''Active'' 500,
                                 demo_key ''AKIAX'' ''Active'' 3600000],
                     sim_created = 2\<rparr>,
       target = (),
       calls = [ListAccessKeys ''cicd-bot'', CreateAccessKey ''cicd-bot'', SetTimeout 1000,
                OnNewCredentials ''AKIAX'' ''wJalx''],
       console = [LogKeyCount 1, LogKey ''AKIA0'' ''Active'' 500, LogCreated ''AKIAX'', LogPushing,
                  LogPushUnhandled, LogError (Rejected ''timeout''), LogComplete]\<rparr>)
   \<and> calls (snd (keyRotatorLambda demo_IAM ''cicd-bot'' failing_pusher
        (demo_state [demo_key ''AKIA0'' ''Active'' 500, demo_key ''AKIAX'' ''Active'' 3600000] ())))
     = [ListAccessKeys ''cicd-bot'', UpdateAccessKey ''cicd-bot'' ''AKIA0'' ''Inactive'']"
proof -
  let ?s = "demo_state [demo_key ''AKIA0'' ''Active'' 500] ()"
  let ?s3 = "?s\<lparr>iam_store := \<lparr>sim_keys = [demo_key ''AKIA0'' ''Active'' 500,
                                 demo_key ''AKIAX'' ''Active'' 3600000], sim_created = 2\<rparr>,
                    calls := calls ?s @ [ListAccessKeys ''cicd-bot'', CreateAccessKey ''cicd-bot'',
                       SetTimeout 1000,
                       OnNewCredentials (AccessKeyId (demo_gen 1)) (SecretAccessKey (demo_gen 1))],
                    console := console ?s @
                       key_lines (array_sort compareCreateDate [demo_key ''AKIA0'' ''Active'' 500]) @
                       [LogCreated (AccessKeyId (demo_gen 1)), LogPushing]\<rparr>"
  have few: "length [demo_key ''AKIA0'' ''Active'' 500] \<le> 1" by simp
  have c: "createAccessKey demo_IAM ''cicd-bot'' (iam_store ?s) =
             (Inr (demo_gen 1), \<lparr>sim_keys = [demo_key ''AKIA0'' ''Active'' 500,
                                 demo_key ''AKIAX'' ''Active'' 3600000], sim_created = 2\<rparr>)"
    by (simp add: demo_defs)
  have f: "push failing_pusher (AccessKeyId (demo_gen 1)) (SecretAccessKey (demo_gen 1)) ?s3
             = (Inl (Rejected ''timeout''), ?s3)"
    by (simp add: push_def failing_pusher_def failing_service_def)
  have two: "calls (snd (keyRotatorLambda demo_IAM ''cicd-bot'' failing_pusher
        (demo_state [demo_key ''AKIA0'' ''Active'' 500, demo_key ''AKIAX'' ''Active'' 3600000] ())))
     = [ListAccessKeys ''cicd-bot'', UpdateAccessKey ''cicd-bot'' ''AKIA0'' ''Inactive'']"
    by (simp add: keyRotatorLambda_def rotate_defs demo_defs)
  show ?thesis
    using distribution_failure_not_rolled_back[OF demo_list few c f, where cp' = failing_pusher] two
    by (simp add: demo_defs key_lines_def)
qed

end
